theory Spec2Isabelle
  imports Complex_Main
begin

section \<open>Data model\<close>

text \<open>
  The path detector (\<^verbatim>\<open>src/path_detector.py\<close>) works on a numpy array \<^verbatim>\<open>mask\<close>
  (the variable \<open>msk\<close> below).
  An array is modelled by its shape (one extent per axis) and a lookup of the item at an
  index vector; \<^verbatim>\<open>mask[r, c]\<close> is \<open>item msk [r, c]\<close>. The items are the integers of
  a binarized image (0 = no evidence).

  Python exceptions are values of \<open>error\<close>: unpacking \<^verbatim>\<open>mask.shape\<close> into two names
  raises \<^verbatim>\<open>ValueError\<close> when the array is not 2-dimensional, and
  \<^verbatim>\<open>scipy.ndimage.map_coordinates\<close> raises \<^verbatim>\<open>RuntimeError\<close> when the number of
  coordinate arrays differs from the rank of the input.
\<close>

datatype error = ValueError | RuntimeError

record ndarray =
  shape :: "nat list"
  item :: "nat list \<Rightarrow> int"

type_synonym point = "real \<times> real"

subsection \<open>Floating point\<close>

text \<open>
  The coordinates and the heading are float64 values in the source. In the sampled
  coordinates (\<^verbatim>\<open>np.linspace\<close>) and in the heading, rounding is abstracted: arithmetic
  is the exact arithmetic of \<open>real\<close>, and the float64 results differ from it by
  rounding. Two features of IEEE 754 are kept. Zero has a sign, because
  \<^verbatim>\<open>np.arctan2\<close> depends on it: a float is a sign bit and a magnitude, and \<open>+0.0\<close>
  and \<open>-0.0\<close> differ in the sign bit only. And the sum of the two contacts in
  \<^verbatim>\<open>find_center\<close> is rounded to the nearest double (\<open>float64_round\<close>), because
  \<^verbatim>\<open>int\<close> truncates it afterwards, which makes the rounding visible in the result.

  Conversions between Python ints, int64 arrays and floats are exact, and int64
  arithmetic does not wrap, for values of magnitude at most \<open>2^52\<close>; beyond that
  range the source rounds, wraps or raises \<^verbatim>\<open>OverflowError\<close>, which is not modelled.
  Every theorem about a value that depends on such a conversion assumes the range.
\<close>

record float64 =
  signbit :: bool
  magnitude :: real

definition float_of_real :: "real \<Rightarrow> float64" where
  "float_of_real r = \<lparr>signbit = (r < 0), magnitude = \<bar>r\<bar>\<rparr>"

text \<open>\<^verbatim>\<open>float(n)\<close> of a Python int: never the negative zero.\<close>

definition float_of_int :: "int \<Rightarrow> float64" where
  "float_of_int n = float_of_real (real_of_int n)"

definition real_of_float :: "float64 \<Rightarrow> real" where
  "real_of_float a = (if signbit a then - magnitude a else magnitude a)"

text \<open>Product: the sign is the exclusive or of the signs, also for a zero result.\<close>

definition fmul :: "float64 \<Rightarrow> float64 \<Rightarrow> float64" where
  "fmul a b = \<lparr>signbit = (signbit a \<noteq> signbit b), magnitude = magnitude a * magnitude b\<rparr>"

text \<open>Unary minus flips the sign bit, also of a zero.\<close>

definition fneg :: "float64 \<Rightarrow> float64" where
  "fneg a = a\<lparr>signbit := \<not> signbit a\<rparr>"

text \<open>
  Difference (round to nearest): an exact zero result is \<open>+0.0\<close>, except
  \<open>(-0.0) - (+0.0) = -0.0\<close>.
\<close>

definition fsub :: "float64 \<Rightarrow> float64 \<Rightarrow> float64" where
  "fsub a b =
     (let r = real_of_float a - real_of_float b
      in if r \<noteq> 0 then float_of_real r
         else \<lparr>signbit = (signbit a \<and> \<not> signbit b), magnitude = 0\<rparr>)"

text \<open>
  \<^verbatim>\<open>np.arctan2(y, x)\<close> (C99 Annex F.9.1.4, which numpy documents): the angle of the
  point \<open>(x, y)\<close>, where a zero counts as positive or negative by its sign bit:
  \<open>arctan2(\<plusminus>0, +0) = \<plusminus>0\<close>, \<open>arctan2(\<plusminus>0, -0) = \<plusminus>\<pi>\<close>,
  \<open>arctan2(\<plusminus>0, x) = \<plusminus>\<pi>\<close> for \<open>x < 0\<close>, \<open>arctan2(y, \<plusminus>0) = \<plusminus>\<pi>/2\<close>
  for \<open>y \<noteq> 0\<close>. The sign of a zero result is dropped.
\<close>

definition arctan2 :: "float64 \<Rightarrow> float64 \<Rightarrow> real" where
  "arctan2 y x =
     (let base = (if magnitude x = 0 then (if magnitude y = 0 then 0 else pi / 2)
                  else arctan (magnitude y / magnitude x));
          angle = (if signbit x then pi - base else base)
      in if signbit y then - angle else angle)"

text \<open>
  A coordinate passed to \<^verbatim>\<open>model_to_heading\<close> is a Python int or a float;
  \<^verbatim>\<open>1. * v\<close> and \<^verbatim>\<open>u - v\<close> with a float \<open>u\<close> convert an int \<open>v\<close> to a float.
\<close>

datatype number = PyInt int | PyFloat float64

definition to_float :: "number \<Rightarrow> float64" where
  "to_float v = (case v of PyInt n \<Rightarrow> float_of_int n | PyFloat f \<Rightarrow> f)"

definition number_value :: "number \<Rightarrow> real" where
  "number_value v = real_of_float (to_float v)"

text \<open>
  Round to nearest, ties to even, with the 53 bit significand of float64: \<open>r\<close> with
  \<open>2^e \<le> |r| < 2^(e+1)\<close> is rounded to a multiple of \<open>2^(e-52)\<close>. (The exponent
  is not bounded: overflow and subnormal numbers are outside the range of the values
  rounded here.)
\<close>

definition round_half_even :: "real \<Rightarrow> int" where
  "round_half_even t =
     (let f = \<lfloor>t\<rfloor>
      in if t - real_of_int f < 1 / 2 then f
         else if 1 / 2 < t - real_of_int f then f + 1
         else if even f then f else f + 1)"

definition float64_round :: "real \<Rightarrow> real" where
  "float64_round r =
     (if r = 0 then 0
      else (let e = \<lfloor>log 2 \<bar>r\<bar>\<rfloor>;
                q = 2 powr real_of_int (e - 52)
            in q * real_of_int (round_half_even (r / q))))"

text \<open>Python's \<^verbatim>\<open>int(x)\<close> of a float truncates toward zero.\<close>

definition py_int :: "real \<Rightarrow> int" where
  "py_int r = (if 0 \<le> r then \<lfloor>r\<rfloor> else \<lceil>r\<rceil>)"

section \<open>numpy and scipy operations used by the detector\<close>

text \<open>
  \<^verbatim>\<open>np.linspace(start, stop, num)\<close> (endpoint=True): \<^verbatim>\<open>step = (stop - start) / (num - 1)\<close>,
  \<^verbatim>\<open>y = arange(num) * step + start\<close> (when the step is zero, \<^verbatim>\<open>arange(num) / (num - 1) *
  (stop - start) + start\<close>), and the last item is then overwritten by \<^verbatim>\<open>stop\<close>.
  With \<^verbatim>\<open>num = 1\<close> the result is \<^verbatim>\<open>[start]\<close>.
\<close>

definition linspace :: "real \<Rightarrow> real \<Rightarrow> nat \<Rightarrow> real list" where
  "linspace start stop num =
     (let dv = num - 1; delta = stop - start
      in if dv > 0 then
           (let step = delta / real dv;
                y = (if step = 0 then map (\<lambda>i. real i / real dv * delta + start) [0..<num]
                     else map (\<lambda>i. real i * step + start) [0..<num])
            in y[num - 1 := stop])
         else map (\<lambda>i. real i * delta + start) [0..<num])"

text \<open>
  \<^verbatim>\<open>ndimage.map_coordinates(input, coordinates, order=0)\<close> with the defaults
  \<^verbatim>\<open>mode='constant'\<close>, \<^verbatim>\<open>cval=0.0\<close>: a coordinate \<open>c\<close> along an axis of extent \<open>len\<close>
  is outside when \<open>c < 0\<close> or \<open>c > len - 1\<close>; a sample with a coordinate outside is
  the constant 0; otherwise it is the item at the nearest grid cell, \<open>\<lfloor>c + 1/2\<rfloor>\<close>
  along each axis.
\<close>

definition outside :: "nat \<Rightarrow> real \<Rightarrow> bool" where
  "outside len c \<longleftrightarrow> c < 0 \<or> c > real len - 1"

definition nearest :: "real \<Rightarrow> nat" where
  "nearest c = nat \<lfloor>c + 1 / 2\<rfloor>"

definition sample :: "ndarray \<Rightarrow> real list \<Rightarrow> int" where
  "sample input cs =
     (if list_ex (\<lambda>(len, c). outside len c) (zip (shape input) cs) then 0
      else item input (map nearest cs))"

definition map_coordinates :: "ndarray \<Rightarrow> real list list \<Rightarrow> error + int list" where
  "map_coordinates input coordinates =
     (if length (shape input) < 1 \<or> length coordinates \<noteq> length (shape input)
      then Inl RuntimeError
      else Inr (map (\<lambda>k. sample input (map (\<lambda>c. c ! k) coordinates))
                  [0..<length (hd coordinates)]))"

text \<open>\<^verbatim>\<open>np.nonzero(vals)[0]\<close>: the indices of the non-zero items, ascending.\<close>

definition nonzero :: "int list \<Rightarrow> nat list" where
  "nonzero vals = filter (\<lambda>i. vals ! i \<noteq> 0) [0..<length vals]"

section \<open>The path detector\<close>

subsection \<open>Line sampler: \<^verbatim>\<open>profile\<close>\<close>

definition profile ::
  "ndarray \<Rightarrow> point \<Rightarrow> point \<Rightarrow> nat \<Rightarrow> error + (real list \<times> real list \<times> int list)" where
  "profile msk p0 p1 num =
     (let n = linspace (fst p0) (fst p1) num;
          m = linspace (snd p0) (snd p1) num
      in case map_coordinates msk [m, n] of
           Inl e \<Rightarrow> Inl e
         | Inr vals \<Rightarrow> Inr (n, m, vals))"

subsection \<open>Heading calculator: \<^verbatim>\<open>model_to_heading\<close>\<close>

text \<open>
  The arguments are pairs of Python numbers (tuples of ints at the call in
  \<^verbatim>\<open>detect\<close>); \<^verbatim>\<open>1. * model_xy[0] - car_center_xy[0]\<close> converts them to floats.
\<close>

definition model_to_heading :: "number \<times> number \<Rightarrow> number \<times> number \<Rightarrow> real" where
  "model_to_heading model_xy car_center_xy =
     (let dx = fsub (fmul (float_of_real 1) (to_float (fst model_xy)))
                    (to_float (fst car_center_xy));
          dy = fsub (fmul (float_of_real 1) (to_float (snd model_xy)))
                    (to_float (snd car_center_xy));
          heading = - arctan2 dx (fneg dy) * 180 / pi
      in heading)"

subsection \<open>Boundary locator and road center estimator: \<^verbatim>\<open>find_center\<close>\<close>

text \<open>
  \<^verbatim>\<open>find_center\<close> is split along its three steps: the two \<^verbatim>\<open>profile\<close> calls
  (\<open>left_scan\<close>, \<open>right_scan\<close>, each after the unpacking of \<^verbatim>\<open>mask.shape\<close>),
  the choice of the two contacts (\<open>contact\<close> for one side, with that side's
  fallback offset; \<open>boundary_locator\<close> for both), and the midpoint converted with
  \<^verbatim>\<open>int\<close> (\<open>road_center_estimator\<close>). The points \<^verbatim>\<open>p0\<close>, \<^verbatim>\<open>pl\<close>, \<^verbatim>\<open>pr\<close> are
  int64 arrays, and so is a fallback contact \<^verbatim>\<open>p0 + np.array([-100, 0])\<close>: the
  additions are exact (no wrap-around) for reference coordinates of magnitude at most
  \<open>2^52\<close>. In \<^verbatim>\<open>(contact_l + contact_r) / 2\<close> the sum is a float64 sum (of two int64
  contacts: an exact int64 sum converted by the division), rounded to the nearest
  double; halving is exact.
\<close>

definition sample_width :: "nat \<Rightarrow> int" where
  "sample_width img_width = py_int (real img_width / 2)"

definition left_scan ::
  "ndarray \<Rightarrow> int \<Rightarrow> int \<Rightarrow> error + (real list \<times> real list \<times> int list)" where
  "left_scan msk x y =
     (case shape msk of
        [img_height, img_width] \<Rightarrow>
          profile msk (real_of_int x, real_of_int y)
            (real_of_int (x - sample_width img_width), real_of_int y) 40
      | _ \<Rightarrow> Inl ValueError)"

definition right_scan ::
  "ndarray \<Rightarrow> int \<Rightarrow> int \<Rightarrow> error + (real list \<times> real list \<times> int list)" where
  "right_scan msk x y =
     (case shape msk of
        [img_height, img_width] \<Rightarrow>
          profile msk (real_of_int x, real_of_int y)
            (real_of_int (x + sample_width img_width), real_of_int y) 40
      | _ \<Rightarrow> Inl ValueError)"

definition contact ::
  "point \<Rightarrow> real \<Rightarrow> real list \<times> real list \<times> int list \<Rightarrow> point" where
  "contact p0 offset scan =
     (case scan of (xs, ys, vals) \<Rightarrow>
        (let idx = nonzero vals
         in if length idx = 0 then (fst p0 + offset, snd p0 + 0)
            else (xs ! (idx ! 0), ys ! (idx ! 0))))"

definition boundary_locator :: "ndarray \<Rightarrow> int \<Rightarrow> int \<Rightarrow> error + (point \<times> point)" where
  "boundary_locator msk x y =
     (case left_scan msk x y of
        Inl e \<Rightarrow> Inl e
      | Inr l \<Rightarrow>
          (case right_scan msk x y of
             Inl e \<Rightarrow> Inl e
           | Inr r \<Rightarrow>
               (let p0 = (real_of_int x, real_of_int y)
                in Inr (contact p0 (- 100) l, contact p0 30 r))))"

definition road_center_estimator :: "point \<Rightarrow> point \<Rightarrow> int \<times> int" where
  "road_center_estimator contact_l contact_r =
     (let center = (float64_round (fst contact_l + fst contact_r) / 2,
                    float64_round (snd contact_l + snd contact_r) / 2)
      in (py_int (fst center), py_int (snd center)))"

definition find_center :: "ndarray \<Rightarrow> int \<Rightarrow> int \<Rightarrow> error + (int \<times> int)" where
  "find_center msk x y =
     (case boundary_locator msk x y of
        Inl e \<Rightarrow> Inl e
      | Inr (contact_l, contact_r) \<Rightarrow> Inr (road_center_estimator contact_l contact_r))"

subsection \<open>\<^verbatim>\<open>detect\<close>\<close>

text \<open>
  The result is the dictionary \<^verbatim>\<open>{'heading': heading}\<close>. The image returned beside
  it is drawn from \<^verbatim>\<open>car_center\<close>, \<^verbatim>\<open>y0\<close> and \<^verbatim>\<open>road_center\<close> after the dictionary
  is built and is not modelled.

  The literal \<^verbatim>\<open>.6\<close> is the real number \<open>6/10\<close>. The double nearest to it is
  smaller by about \<open>2.2e-17\<close>, which does not change \<^verbatim>\<open>int(img_height*.6)\<close>: the
  float product is the exact integer when 5 divides the height and is at least \<open>1/5\<close>
  away from an integer otherwise.
\<close>

definition detect :: "ndarray \<Rightarrow> error + (string \<rightharpoonup> real)" where
  "detect msk =
     (case shape msk of
        [img_height, img_width] \<Rightarrow>
          (let x0 = py_int (real img_width / 2);
               y0 = py_int (real img_height * (6 / 10));
               car_center = (x0, int img_height)
           in case find_center msk x0 y0 of
                Inl e \<Rightarrow> Inl e
              | Inr road_center \<Rightarrow>
                  Inr [''heading'' \<mapsto>
                    model_to_heading (map_prod PyInt PyInt road_center)
                      (map_prod PyInt PyInt car_center)])
      | _ \<Rightarrow> Inl ValueError)"

section \<open>Reference definitions and example inputs\<close>

text \<open>
  The two-argument arctangent of real numbers as the specification names it: the angle
  of the point \<open>(x, y)\<close> in \<open>(-\<pi>, \<pi>]\<close>, with the value 0 at the origin. It is
  the reference the heading formula is compared with.
\<close>

definition atan2_spec :: "real \<Rightarrow> real \<Rightarrow> real" where
  "atan2_spec y x =
     (if 0 < x then arctan (y / x)
      else if x < 0 \<and> 0 \<le> y then arctan (y / x) + pi
      else if x < 0 then arctan (y / x) - pi
      else if 0 < y then pi / 2
      else if y < 0 then - pi / 2
      else 0)"

text \<open>
  The coordinates the heading theorem is about: a Python int or a float that is \<open>+0\<close>
  or has a magnitude between \<open>2^-52\<close> and \<open>2^52\<close>. In this range the conversion
  of an int is exact, the difference of two coordinates is zero only when they are
  equal, and no quotient underflows. The float \<open>-0.0\<close> is excluded.
\<close>

definition in_range :: "number \<Rightarrow> bool" where
  "in_range v \<longleftrightarrow>
     (magnitude (to_float v) = 0 \<and> \<not> signbit (to_float v))
     \<or> (1 / 2 ^ 52 \<le> magnitude (to_float v) \<and> magnitude (to_float v) \<le> 2 ^ 52)"

text \<open>
  Example frames of 100 x 100 pixels: an empty one, the one of the specification's
  end-to-end example (non-zero pixels at \<open>(x, y) = (30, 60)\<close> and \<open>(70, 60)\<close>, that
  is, at row 60 and columns 30 and 70), and one with a single non-zero pixel at
  \<open>(31, 60)\<close>.
\<close>

definition zero_mask :: ndarray where
  "zero_mask = \<lparr>shape = [100, 100], item = (\<lambda>idx. 0)\<rparr>"

definition example_mask :: ndarray where
  "example_mask = \<lparr>shape = [100, 100],
      item = (\<lambda>idx. if idx = [60, 30] \<or> idx = [60, 70] then 255 else 0)\<rparr>"

definition one_pixel_mask :: ndarray where
  "one_pixel_mask = \<lparr>shape = [100, 100],
      item = (\<lambda>idx. if idx = [60, 31] then 255 else 0)\<rparr>"

section \<open>Float64 rounding\<close>

lemma two_powr_nat: "(2::real) powr real n = 2 ^ n"
  by (simp add: powr_realpow)

lemma two_powr_52: "(2::real) powr 52 = 2 ^ 52"
  using two_powr_nat [of 52] by simp

lemma two_powr_53: "(2::real) powr 53 = 2 ^ 53"
  using two_powr_nat [of 53] by simp

lemma round_half_even_of_int: "round_half_even (real_of_int n) = n"
  by (simp add: round_half_even_def)

lemma round_half_even_bounds:
  "real_of_int (round_half_even t) \<le> t + 1 / 2 \<and> t - 1 / 2 \<le> real_of_int (round_half_even t)"
  unfolding round_half_even_def Let_def by (auto; linarith)

lemma quantum_le:
  assumes "r \<noteq> 0"
  shows "2 powr real_of_int (\<lfloor>log 2 \<bar>r\<bar>\<rfloor> - 52) \<le> \<bar>r\<bar> / 2 ^ 52"
proof -
  have pos: "0 < \<bar>r\<bar>" using assms by simp
  have "2 powr real_of_int \<lfloor>log 2 \<bar>r\<bar>\<rfloor> \<le> 2 powr log 2 \<bar>r\<bar>"
    by (simp only: powr_le_cancel_iff) simp
  also have "\<dots> = \<bar>r\<bar>" using pos by simp
  finally have a: "2 powr real_of_int \<lfloor>log 2 \<bar>r\<bar>\<rfloor> \<le> \<bar>r\<bar>" .
  have "2 powr real_of_int (\<lfloor>log 2 \<bar>r\<bar>\<rfloor> - 52)
      = 2 powr real_of_int \<lfloor>log 2 \<bar>r\<bar>\<rfloor> / 2 powr 52"
    by (simp add: powr_diff)
  also have "\<dots> = 2 powr real_of_int \<lfloor>log 2 \<bar>r\<bar>\<rfloor> / 2 ^ 52"
    by (simp only: two_powr_52)
  also have "\<dots> \<le> \<bar>r\<bar> / 2 ^ 52"
    using a by (simp add: divide_right_mono)
  finally show ?thesis .
qed

lemma float64_round_error: "\<bar>float64_round r - r\<bar> \<le> \<bar>r\<bar> / 2 ^ 53"
proof (cases "r = 0")
  case True
  then show ?thesis by (simp add: float64_round_def)
next
  case False
  define q where "q = 2 powr real_of_int (\<lfloor>log 2 \<bar>r\<bar>\<rfloor> - 52)"
  have qpos: "0 < q" by (simp add: q_def)
  have qle: "q \<le> \<bar>r\<bar> / 2 ^ 52" unfolding q_def by (rule quantum_le [OF False])
  have fr: "float64_round r = q * real_of_int (round_half_even (r / q))"
    using False by (simp add: float64_round_def Let_def q_def)
  have "\<bar>real_of_int (round_half_even (r / q)) - r / q\<bar> \<le> 1 / 2"
    using round_half_even_bounds [of "r / q"] by linarith
  then have "q * \<bar>real_of_int (round_half_even (r / q)) - r / q\<bar> \<le> q * (1 / 2)"
    using qpos by (simp only: mult_le_cancel_left_pos)
  moreover have "q * \<bar>real_of_int (round_half_even (r / q)) - r / q\<bar>
      = \<bar>q * real_of_int (round_half_even (r / q)) - r\<bar>"
  proof -
    have "q * \<bar>real_of_int (round_half_even (r / q)) - r / q\<bar>
        = \<bar>q * (real_of_int (round_half_even (r / q)) - r / q)\<bar>"
      using qpos by (simp add: abs_mult)
    also have "q * (real_of_int (round_half_even (r / q)) - r / q)
        = q * real_of_int (round_half_even (r / q)) - r"
      using qpos by (simp add: right_diff_distrib)
    finally show ?thesis .
  qed
  ultimately have "\<bar>float64_round r - r\<bar> \<le> q / 2" by (simp add: fr)
  also have "\<dots> \<le> \<bar>r\<bar> / 2 ^ 53" using qle by simp
  finally show ?thesis .
qed

lemma float64_round_dyadic:
  assumes "\<bar>m\<bar> < 2 ^ 53"
  shows "float64_round (real_of_int m * 2 powr real_of_int k) = real_of_int m * 2 powr real_of_int k"
proof (cases "m = 0")
  case True
  then show ?thesis by (simp add: float64_round_def)
next
  case False
  define r where "r = real_of_int m * 2 powr real_of_int k"
  define e where "e = \<lfloor>log 2 \<bar>r\<bar>\<rfloor>"
  have rnz: "r \<noteq> 0" using False by (simp add: r_def)
  have absr: "\<bar>r\<bar> = real_of_int \<bar>m\<bar> * 2 powr real_of_int k"
    by (simp add: r_def abs_mult)
  have "real_of_int \<bar>m\<bar> < 2 ^ 53" using assms
    by (metis of_int_less_iff of_int_numeral of_int_power)
  then have "\<bar>r\<bar> < 2 ^ 53 * 2 powr real_of_int k"
    unfolding absr by (simp add: mult_strict_right_mono)
  also have "\<dots> = 2 powr real_of_int (53 + k)"
    by (simp add: powr_add two_powr_53)
  finally have "\<bar>r\<bar> < 2 powr real_of_int (53 + k)" .
  then have "log 2 \<bar>r\<bar> < real_of_int (53 + k)"
    using rnz by (simp only: log_less_iff [of 2])
  then have "\<lfloor>log 2 \<bar>r\<bar>\<rfloor> < 53 + k" by (simp only: floor_less_iff)
  then have ele: "e \<le> 52 + k" unfolding e_def by simp
  define d where "d = nat (52 + k - e)"
  have dk: "real_of_int k - real_of_int (e - 52) = real d"
    using ele by (simp add: d_def)
  define q where "q = 2 powr real_of_int (e - 52)"
  have qpos: "0 < q" by (simp add: q_def)
  have "r / q = real_of_int m * (2 powr real_of_int k / 2 powr real_of_int (e - 52))"
    by (simp add: r_def q_def)
  also have "2 powr real_of_int k / 2 powr real_of_int (e - 52) = 2 powr (real d)"
    by (simp only: powr_diff [symmetric] dk)
  also have "2 powr (real d) = (2::real) ^ d" by (simp add: powr_realpow)
  finally have rq: "r / q = real_of_int (m * 2 ^ d)" by simp
  have "float64_round r = q * real_of_int (round_half_even (r / q))"
    using rnz by (simp add: float64_round_def Let_def q_def e_def)
  also have "\<dots> = q * (r / q)" by (simp only: rq round_half_even_of_int)
  also have "\<dots> = r" using qpos by simp
  finally show ?thesis by (simp only: r_def)
qed

lemma float64_round_of_int:
  "\<bar>n\<bar> < 2 ^ 53 \<Longrightarrow> float64_round (real_of_int n) = real_of_int n"
  using float64_round_dyadic [of n 0] by simp

lemma float64_round_double: "float64_round (2 * r) = 2 * float64_round r"
proof (cases "r = 0")
  case True
  then show ?thesis by (simp add: float64_round_def)
next
  case False
  define e where "e = \<lfloor>log 2 \<bar>r\<bar>\<rfloor>"
  define q where "q = 2 powr real_of_int (e - 52)"
  have qpos: "0 < q" by (simp add: q_def)
  have "log 2 \<bar>2 * r\<bar> = 1 + log 2 \<bar>r\<bar>"
    using False by (simp add: abs_mult log_mult)
  then have e2: "\<lfloor>log 2 \<bar>2 * r\<bar>\<rfloor> = e + 1" by (simp add: e_def)
  have "real_of_int (e + 1 - 52) = real_of_int (e - 52) + 1" by simp
  then have q2: "2 powr real_of_int (e + 1 - 52) = 2 * q"
    by (simp only: powr_add q_def) simp
  have "float64_round (2 * r) = (2 * q) * real_of_int (round_half_even (2 * r / (2 * q)))"
    using False by (simp only: float64_round_def Let_def e2 q2) simp
  also have "2 * r / (2 * q) = r / q" by simp
  finally have "float64_round (2 * r) = 2 * (q * real_of_int (round_half_even (r / q)))"
    by simp
  moreover have "float64_round r = q * real_of_int (round_half_even (r / q))"
    using False by (simp add: float64_round_def Let_def q_def e_def)
  ultimately show ?thesis by simp
qed

section \<open>Heading calculator\<close>

text \<open>
  The difference of two converted coordinates, for floats with a non-negative magnitude
  that are not the negative zero: its value is the difference of the values, and an
  exact zero is \<open>+0.0\<close>.
\<close>

lemma float_difference:
  assumes "0 \<le> magnitude a \<and> \<not> (signbit a \<and> magnitude a = 0)"
    and "0 \<le> magnitude b \<and> \<not> (signbit b \<and> magnitude b = 0)"
  shows "fsub (fmul (float_of_real 1) a) b = float_of_real (real_of_float a - real_of_float b)"
proof -
  have one: "fmul (float_of_real 1) a = a"
    by (simp add: fmul_def float_of_real_def)
  show ?thesis
    using assms unfolding one
    by (auto simp: fsub_def float_of_real_def real_of_float_def Let_def)
qed

lemma int_proper:
  "0 \<le> magnitude (to_float (PyInt n))
   \<and> \<not> (signbit (to_float (PyInt n)) \<and> magnitude (to_float (PyInt n)) = 0)"
  by (auto simp: to_float_def float_of_int_def float_of_real_def)

lemma in_range_proper:
  assumes "in_range v"
  shows "0 \<le> magnitude (to_float v)
   \<and> \<not> (signbit (to_float v) \<and> magnitude (to_float v) = 0)"
proof -
  have "(0::real) < 1 / 2 ^ 52" by simp
  with assms show ?thesis unfolding in_range_def by auto
qed

lemma number_value_int: "number_value (PyInt n) = real_of_int n"
  by (auto simp: number_value_def to_float_def float_of_int_def float_of_real_def
      real_of_float_def)

lemma model_to_heading_eq:
  assumes "0 \<le> magnitude (to_float mx)
      \<and> \<not> (signbit (to_float mx) \<and> magnitude (to_float mx) = 0)"
    and "0 \<le> magnitude (to_float my)
      \<and> \<not> (signbit (to_float my) \<and> magnitude (to_float my) = 0)"
    and "0 \<le> magnitude (to_float cx)
      \<and> \<not> (signbit (to_float cx) \<and> magnitude (to_float cx) = 0)"
    and "0 \<le> magnitude (to_float cy)
      \<and> \<not> (signbit (to_float cy) \<and> magnitude (to_float cy) = 0)"
  shows "model_to_heading (mx, my) (cx, cy) =
   - arctan2 (float_of_real (number_value mx - number_value cx))
       (fneg (float_of_real (number_value my - number_value cy))) * 180 / pi"
  by (simp add: model_to_heading_def number_value_def
      float_difference [OF assms(1) assms(3)] float_difference [OF assms(2) assms(4)])

lemma model_to_heading_int:
  "model_to_heading (PyInt mx, PyInt my) (PyInt cx, PyInt cy) =
   - arctan2 (float_of_real (real_of_int mx - real_of_int cx))
       (fneg (float_of_real (real_of_int my - real_of_int cy))) * 180 / pi"
  using model_to_heading_eq [OF int_proper int_proper int_proper int_proper, of mx my cx cy]
  by (simp only: number_value_int)

text \<open>Target above the reference row: the second argument of \<open>arctan2\<close> is positive.\<close>

lemma arctan2_up:
  "dy < 0 \<Longrightarrow> arctan2 (float_of_real dx) (fneg (float_of_real dy)) = arctan (dx / (- dy))"
proof -
  assume neg: "dy < 0"
  have "\<bar>dx\<bar> / \<bar>dy\<bar> = (if dx < 0 then - (dx / (- dy)) else dx / (- dy))"
    using neg by (simp add: abs_if)
  then show ?thesis
    using neg by (simp add: arctan2_def fneg_def float_of_real_def Let_def arctan_minus)
qed

text \<open>Target below the reference row.\<close>

lemma arctan2_down:
  "0 < dy \<Longrightarrow> arctan2 (float_of_real dx) (fneg (float_of_real dy)) =
     (if 0 \<le> dx then arctan (dx / (- dy)) + pi else arctan (dx / (- dy)) - pi)"
  by (auto simp: arctan2_def fneg_def float_of_real_def arctan_minus)

text \<open>
  Target on the reference row: \<open>dy = +0.0\<close>, so the second argument is \<open>-0.0\<close>, and a
  first argument \<open>+0.0\<close> gives \<open>\<pi>\<close>.
\<close>

lemma arctan2_level:
  "arctan2 (float_of_real dx) (fneg (float_of_real 0)) =
     (if 0 < dx then pi / 2 else if dx < 0 then - pi / 2 else pi)"
  by (auto simp: arctan2_def fneg_def float_of_real_def)

lemma arctan2_is_atan2_spec:
  assumes "dx \<noteq> 0 \<or> dy \<noteq> 0"
  shows "arctan2 (float_of_real dx) (fneg (float_of_real dy)) = atan2_spec dx (- dy)"
proof -
  consider "dy < 0" | "0 < dy" | "dy = 0" by linarith
  then show ?thesis
  proof cases
    case 1
    then show ?thesis by (simp add: arctan2_up atan2_spec_def)
  next
    case 2
    then show ?thesis by (simp add: arctan2_down atan2_spec_def)
  next
    case 3
    with assms show ?thesis by (auto simp: arctan2_level atan2_spec_def)
  qed
qed

lemma degrees_pos: "a < 0 \<Longrightarrow> 0 < - a * 180 / pi"
  by (simp add: divide_neg_pos mult_neg_pos)

lemma degrees_neg: "0 < a \<Longrightarrow> - a * 180 / pi < 0"
  by (simp add: divide_pos_pos)

text \<open>The cases of the heading as a function of the real differences.\<close>

lemma heading_cases:
  fixes dx dy :: real
  shows "(dx \<noteq> 0 \<or> dy \<noteq> 0 \<longrightarrow>
            - arctan2 (float_of_real dx) (fneg (float_of_real dy)) * 180 / pi
              = - atan2_spec dx (- dy) * 180 / pi)
       \<and> (dx = 0 \<and> dy < 0 \<longrightarrow>
            - arctan2 (float_of_real dx) (fneg (float_of_real dy)) * 180 / pi = 0)
       \<and> (dx < 0 \<and> dy < 0 \<longrightarrow>
            0 < - arctan2 (float_of_real dx) (fneg (float_of_real dy)) * 180 / pi)
       \<and> (0 < dx \<and> dy < 0 \<longrightarrow>
            - arctan2 (float_of_real dx) (fneg (float_of_real dy)) * 180 / pi < 0)
       \<and> (dx < 0 \<and> dy = 0 \<longrightarrow>
            - arctan2 (float_of_real dx) (fneg (float_of_real dy)) * 180 / pi = 90)
       \<and> (0 < dx \<and> dy = 0 \<longrightarrow>
            - arctan2 (float_of_real dx) (fneg (float_of_real dy)) * 180 / pi = - 90)
       \<and> (dx = 0 \<and> dy = 0 \<longrightarrow>
            - arctan2 (float_of_real dx) (fneg (float_of_real dy)) * 180 / pi = - 180)"
proof (intro conjI impI)
  assume "dx \<noteq> 0 \<or> dy \<noteq> 0"
  then show "- arctan2 (float_of_real dx) (fneg (float_of_real dy)) * 180 / pi
      = - atan2_spec dx (- dy) * 180 / pi"
    by (simp only: arctan2_is_atan2_spec)
next
  assume "dx = 0 \<and> dy < 0"
  then show "- arctan2 (float_of_real dx) (fneg (float_of_real dy)) * 180 / pi = 0"
    by (simp add: arctan2_up)
next
  assume a: "dx < 0 \<and> dy < 0"
  then have "dx / (- dy) < 0" by (intro divide_neg_pos) simp_all
  then have "arctan (dx / (- dy)) < 0" by (simp only: arctan_less_zero_iff)
  with a show "0 < - arctan2 (float_of_real dx) (fneg (float_of_real dy)) * 180 / pi"
    by (simp only: arctan2_up degrees_pos)
next
  assume a: "0 < dx \<and> dy < 0"
  then have "0 < dx / (- dy)" by (intro divide_pos_pos) simp_all
  then have "0 < arctan (dx / (- dy))" by (simp only: zero_less_arctan_iff)
  with a show "- arctan2 (float_of_real dx) (fneg (float_of_real dy)) * 180 / pi < 0"
    by (simp only: arctan2_up degrees_neg)
next
  assume "dx < 0 \<and> dy = 0"
  then show "- arctan2 (float_of_real dx) (fneg (float_of_real dy)) * 180 / pi = 90"
    by (simp add: arctan2_level)
next
  assume "0 < dx \<and> dy = 0"
  then show "- arctan2 (float_of_real dx) (fneg (float_of_real dy)) * 180 / pi = - 90"
    by (simp add: arctan2_level)
next
  assume "dx = 0 \<and> dy = 0"
  then show "- arctan2 (float_of_real dx) (fneg (float_of_real dy)) * 180 / pi = - 180"
    by (simp add: arctan2_level)
qed

text \<open>
  C1 (as the code has it). For every target point and reference point whose coordinates
  are Python ints or floats in the range of \<open>in_range\<close> (zero, or of magnitude
  between \<open>2^-52\<close> and \<open>2^52\<close>), with \<open>dx = target.x - reference.x\<close> and
  \<open>dy = target.y - reference.y\<close>: \<^verbatim>\<open>model_to_heading\<close> returns
  \<open>- atan2(dx, - dy)\<close> in degrees whenever the two points differ; \<open>dx = 0, dy < 0\<close>
  gives 0; \<open>dx < 0, dy < 0\<close> a positive and \<open>dx > 0, dy < 0\<close> a negative heading;
  \<open>dy = 0\<close> gives \<open>+90\<close> for \<open>dx < 0\<close> and \<open>-90\<close> for \<open>dx > 0\<close>. When the two
  points coincide the heading is \<open>-180\<close>, not 0: \<open>dy\<close> is \<open>+0.0\<close>, its negation is
  \<open>-0.0\<close>, and \<open>arctan2(+0.0, -0.0) = \<pi>\<close>.
\<close>

theorem model_to_heading_cases:
  assumes "in_range mx" and "in_range my" and "in_range cx" and "in_range cy"
  shows "(let dx = number_value mx - number_value cx;
              dy = number_value my - number_value cy;
              heading = model_to_heading (mx, my) (cx, cy)
          in (dx \<noteq> 0 \<or> dy \<noteq> 0 \<longrightarrow> heading = - atan2_spec dx (- dy) * 180 / pi)
           \<and> (dx = 0 \<and> dy < 0 \<longrightarrow> heading = 0)
           \<and> (dx < 0 \<and> dy < 0 \<longrightarrow> 0 < heading)
           \<and> (0 < dx \<and> dy < 0 \<longrightarrow> heading < 0)
           \<and> (dx < 0 \<and> dy = 0 \<longrightarrow> heading = 90)
           \<and> (0 < dx \<and> dy = 0 \<longrightarrow> heading = - 90)
           \<and> (dx = 0 \<and> dy = 0 \<longrightarrow> heading = - 180))"
  unfolding Let_def
    model_to_heading_eq [OF in_range_proper [OF assms(1)] in_range_proper [OF assms(2)]
      in_range_proper [OF assms(3)] in_range_proper [OF assms(4)]]
  by (rule heading_cases)

lemma in_range_int: "\<bar>n\<bar> \<le> 2 ^ 52 \<Longrightarrow> in_range (PyInt n)"
proof -
  assume b: "\<bar>n\<bar> \<le> 2 ^ 52"
  then have "real_of_int \<bar>n\<bar> \<le> 2 ^ 52"
    by (metis of_int_le_iff of_int_numeral of_int_power)
  moreover have "n \<noteq> 0 \<Longrightarrow> 1 \<le> real_of_int \<bar>n\<bar>"
    by (simp add: int_one_le_iff_zero_less)
  moreover have "(1::real) / 2 ^ 52 \<le> 1" by simp
  ultimately show ?thesis
    by (cases "n = 0") (auto simp: in_range_def to_float_def float_of_int_def float_of_real_def)
qed

text \<open>
  The cases of C1 at the car center \<open>(50, 100)\<close> of a 100 x 100 frame, with integer
  targets and with the float target \<open>(30.5, 60.0)\<close>.
\<close>

theorem model_to_heading_cases_witness:
  "in_range (PyInt 15) \<and> in_range (PyInt 100) \<and> in_range (PyFloat (float_of_real (61 / 2)))
   \<and> model_to_heading (PyInt 15, PyInt 60) (PyInt 50, PyInt 100)
       = - atan2_spec (- 35) 40 * 180 / pi
   \<and> model_to_heading (PyInt 50, PyInt 60) (PyInt 50, PyInt 100) = 0
   \<and> 0 < model_to_heading (PyInt 15, PyInt 60) (PyInt 50, PyInt 100)
   \<and> 0 < model_to_heading (PyFloat (float_of_real (61 / 2)), PyFloat (float_of_real 60))
           (PyInt 50, PyInt 100)
   \<and> model_to_heading (PyInt 65, PyInt 60) (PyInt 50, PyInt 100) < 0
   \<and> model_to_heading (PyInt 15, PyInt 100) (PyInt 50, PyInt 100) = 90
   \<and> model_to_heading (PyInt 65, PyInt 100) (PyInt 50, PyInt 100) = - 90
   \<and> model_to_heading (PyInt 50, PyInt 100) (PyInt 50, PyInt 100) = - 180"
proof -
  have r: "in_range (PyInt 15)" "in_range (PyInt 50)" "in_range (PyInt 60)"
    "in_range (PyInt 65)" "in_range (PyInt 100)"
    by (simp_all add: in_range_int)
  have f: "in_range (PyFloat (float_of_real (61 / 2)))" "in_range (PyFloat (float_of_real 60))"
    by (simp_all add: in_range_def to_float_def float_of_real_def)
  have v: "number_value (PyFloat (float_of_real (61 / 2))) = 61 / 2"
    "number_value (PyFloat (float_of_real 60)) = 60"
    by (simp_all add: number_value_def to_float_def float_of_real_def real_of_float_def)
  have left: "model_to_heading (PyInt 15, PyInt 60) (PyInt 50, PyInt 100)
        = - atan2_spec (- 35) 40 * 180 / pi
      \<and> 0 < model_to_heading (PyInt 15, PyInt 60) (PyInt 50, PyInt 100)"
    using model_to_heading_cases [OF r(1) r(3) r(2) r(5)]
    by (simp add: Let_def number_value_int)
  have left_f: "0 < model_to_heading (PyFloat (float_of_real (61 / 2)), PyFloat (float_of_real 60))
           (PyInt 50, PyInt 100)"
    using model_to_heading_cases [OF f(1) f(2) r(2) r(5)]
    by (simp add: Let_def number_value_int v)
  have up: "model_to_heading (PyInt 50, PyInt 60) (PyInt 50, PyInt 100) = 0"
    using model_to_heading_cases [OF r(2) r(3) r(2) r(5), unfolded Let_def,
        THEN conjunct2, THEN conjunct1]
    by (simp add: number_value_int)
  have right: "model_to_heading (PyInt 65, PyInt 60) (PyInt 50, PyInt 100) < 0"
    using model_to_heading_cases [OF r(4) r(3) r(2) r(5)]
    by (simp add: Let_def number_value_int)
  have level_l: "model_to_heading (PyInt 15, PyInt 100) (PyInt 50, PyInt 100) = 90"
    using model_to_heading_cases [OF r(1) r(5) r(2) r(5)]
    by (simp add: Let_def number_value_int)
  have level_r: "model_to_heading (PyInt 65, PyInt 100) (PyInt 50, PyInt 100) = - 90"
    using model_to_heading_cases [OF r(4) r(5) r(2) r(5)]
    by (simp add: Let_def number_value_int)
  have same: "model_to_heading (PyInt 50, PyInt 100) (PyInt 50, PyInt 100) = - 180"
    using model_to_heading_cases [OF r(2) r(5) r(2) r(5)]
    by (simp add: Let_def number_value_int)
  from r f left left_f up right level_l level_r same show ?thesis by blast
qed

text \<open>
  C1 as stated fails in its last case: for a target equal to the reference point
  (\<open>dx = dy = 0\<close>) the heading is \<open>-180\<close> degrees, not 0.
\<close>

theorem model_to_heading_same_point:
  "model_to_heading (PyInt 5, PyInt 5) (PyInt 5, PyInt 5) = - 180
   \<and> model_to_heading (PyInt 5, PyInt 5) (PyInt 5, PyInt 5) \<noteq> 0"
  by (simp add: model_to_heading_int arctan2_level)

section \<open>Road center estimator\<close>

lemma py_int_of_int: "py_int (real_of_int n) = n"
  by (simp add: py_int_def)

lemma py_int_toward_zero:
  "\<bar>real_of_int (py_int r)\<bar> \<le> \<bar>r\<bar> \<and> \<bar>r - real_of_int (py_int r)\<bar> < 1"
  unfolding py_int_def by (auto; linarith)

lemma float64_round_same_row: "float64_round (y + y) / 2 = float64_round y"
proof -
  have "y + y = 2 * y" by simp
  then show ?thesis by (simp only: float64_round_double)
qed

text \<open>
  C5 (as the code has it). For contacts \<open>(x1, y)\<close> and \<open>(x2, y)\<close> with float64
  coordinates of magnitude at most \<open>2^52\<close>, the estimator returns the float64 midpoint
  (the sum \<open>x1 + x2\<close> rounded to the nearest double, then halved) with each coordinate
  converted by \<^verbatim>\<open>int\<close>, which truncates toward zero; it does not round to the nearest
  integer. The float64 midpoint is within the relative error \<open>2^-53\<close> of the arithmetic
  midpoint, the x-coordinate returned is the integer next to it on the side of zero, it
  is the truncated arithmetic midpoint whenever \<open>x1 + x2\<close> is a float64 value, and
  an integral \<open>y\<close> is returned unchanged. It is a total function.
\<close>

theorem road_center_estimator_truncates:
  assumes "float64_round x1 = x1" and "float64_round x2 = x2" and "float64_round y = y"
    and "\<bar>x1\<bar> \<le> 2 ^ 52" and "\<bar>x2\<bar> \<le> 2 ^ 52" and "\<bar>y\<bar> \<le> 2 ^ 52"
  shows "road_center_estimator (x1, y) (x2, y)
       = (py_int (float64_round (x1 + x2) / 2), py_int y)
   \<and> \<bar>float64_round (x1 + x2) / 2 - (x1 + x2) / 2\<bar> \<le> \<bar>(x1 + x2) / 2\<bar> / 2 ^ 53
   \<and> \<bar>real_of_int (py_int (float64_round (x1 + x2) / 2))\<bar> \<le> \<bar>float64_round (x1 + x2) / 2\<bar>
   \<and> \<bar>float64_round (x1 + x2) / 2 - real_of_int (py_int (float64_round (x1 + x2) / 2))\<bar> < 1
   \<and> (float64_round (x1 + x2) = x1 + x2 \<longrightarrow>
         fst (road_center_estimator (x1, y) (x2, y)) = py_int ((x1 + x2) / 2))
   \<and> (y = real_of_int n \<longrightarrow> snd (road_center_estimator (x1, y) (x2, y)) = n)"
proof -
  have est: "road_center_estimator (x1, y) (x2, y)
       = (py_int (float64_round (x1 + x2) / 2), py_int y)"
    by (simp only: road_center_estimator_def Let_def fst_conv snd_conv
        float64_round_same_row assms(3))
  have "\<bar>float64_round (x1 + x2) - (x1 + x2)\<bar> \<le> \<bar>x1 + x2\<bar> / 2 ^ 53"
    by (rule float64_round_error)
  then have err: "\<bar>float64_round (x1 + x2) / 2 - (x1 + x2) / 2\<bar> \<le> \<bar>(x1 + x2) / 2\<bar> / 2 ^ 53"
    by (simp add: diff_divide_distrib [symmetric])
  note tz = py_int_toward_zero [of "float64_round (x1 + x2) / 2"]
  have ex: "float64_round (x1 + x2) = x1 + x2 \<longrightarrow>
         fst (road_center_estimator (x1, y) (x2, y)) = py_int ((x1 + x2) / 2)"
    by (simp add: est)
  have "snd (road_center_estimator (x1, y) (x2, y)) = py_int y"
    by (simp only: est snd_conv)
  then have row: "y = real_of_int n \<longrightarrow> snd (road_center_estimator (x1, y) (x2, y)) = n"
    by (auto simp: py_int_of_int)
  from est err tz ex row show ?thesis by blast
qed

lemma float64_round_5_2: "float64_round (5 / 2) = 5 / 2"
  using float64_round_dyadic [of 5 "- 1"] by (simp add: powr_minus)

lemma float64_round_7_2: "float64_round (7 / 2) = 7 / 2"
  using float64_round_dyadic [of 7 "- 1"] by (simp add: powr_minus)

lemma float64_round_1: "float64_round 1 = 1"
  using float64_round_of_int [of 1] by simp

lemma float64_round_60: "float64_round 60 = 60"
  using float64_round_of_int [of 60] by simp

text \<open>The contacts \<open>(1, 60)\<close> and \<open>(2.5, 60)\<close>: float64 values whose sum is exact.\<close>

theorem road_center_estimator_truncates_witness:
  "float64_round 1 = 1 \<and> float64_round (5 / 2) = 5 / 2 \<and> float64_round 60 = 60
   \<and> float64_round (1 + 5 / 2) = 1 + 5 / 2
   \<and> road_center_estimator (1, 60) (5 / 2, 60) = (1, 60)"
proof -
  have b: "\<bar>1::real\<bar> \<le> 2 ^ 52" "\<bar>5 / 2 :: real\<bar> \<le> 2 ^ 52" "\<bar>60::real\<bar> \<le> 2 ^ 52"
    by simp_all
  have s: "float64_round (1 + 5 / 2) = 1 + 5 / 2"
    using float64_round_7_2 by simp
  have "road_center_estimator (1, 60) (5 / 2, 60)
      = (py_int (float64_round (1 + 5 / 2) / 2), py_int 60)"
    by (rule road_center_estimator_truncates
        [OF float64_round_1 float64_round_5_2 float64_round_60 b, THEN conjunct1])
  also have "\<dots> = (py_int ((1 + 5 / 2) / 2), py_int 60)" by (simp only: s)
  also have "\<dots> = (1, 60)" by (simp add: py_int_def)
  finally have e: "road_center_estimator (1, 60) (5 / 2, 60) = (1, 60)" .
  from float64_round_1 float64_round_5_2 float64_round_60 s e show ?thesis by blast
qed

text \<open>
  C5 as stated fails: the midpoint is not rounded to the nearest integer. For the
  contacts \<open>(1, 60)\<close> and \<open>(2.5, 60)\<close> the midpoint is \<open>(1.75, 60)\<close>; the nearest
  integer to \<open>1.75\<close> is 2, the estimator returns 1.
\<close>

theorem road_center_estimator_not_rounded:
  "road_center_estimator (1, 60) (5 / 2, 60) = (1, 60)
   \<and> round ((1 + 5 / 2) / 2 :: real) = 2"
proof -
  have x: "float64_round (1 + 5 / 2) = 7 / 2" using float64_round_7_2 by simp
  have y: "float64_round (60 + 60) = 120"
    using float64_round_of_int [of 120] by simp
  have "road_center_estimator (1, 60) (5 / 2, 60) = (py_int (7 / 2 / 2), py_int (120 / 2))"
    by (simp only: road_center_estimator_def Let_def fst_conv snd_conv x y)
  then show ?thesis
    by (simp add: py_int_def round_def)
qed

section \<open>Input validation\<close>

text \<open>
  C8. A mask that is not 2-dimensional makes \<^verbatim>\<open>detect\<close> raise at its first
  statement (the unpacking of \<^verbatim>\<open>mask.shape\<close>): the result is the error, with no
  dictionary, and no sample is taken.
\<close>

theorem detect_rejects_non_2d:
  "length (shape msk) \<noteq> 2 \<Longrightarrow> detect msk = Inl ValueError"
  by (auto simp: detect_def split: list.splits)

theorem detect_rejects_non_2d_witness:
  "length (shape \<lparr>shape = [100], item = (\<lambda>idx. 0)\<rparr>) \<noteq> 2
   \<and> detect \<lparr>shape = [100], item = (\<lambda>idx. 0)\<rparr> = Inl ValueError
   \<and> length (shape \<lparr>shape = [100, 100, 3], item = (\<lambda>idx. 0)\<rparr>) \<noteq> 2
   \<and> detect \<lparr>shape = [100, 100, 3], item = (\<lambda>idx. 0)\<rparr> = Inl ValueError"
  using detect_rejects_non_2d [of "\<lparr>shape = [100], item = (\<lambda>idx. 0)\<rparr>"]
    detect_rejects_non_2d [of "\<lparr>shape = [100, 100, 3], item = (\<lambda>idx. 0)\<rparr>"]
  by simp

section \<open>Line sampler\<close>

lemma length_linspace: "length (linspace a b num) = num"
  by (simp add: linspace_def Let_def)

lemma linspace_nth:
  assumes "2 \<le> num" "i < num"
  shows "linspace a b num ! i = a + real i * (b - a) / real (num - 1)"
proof (cases "i = num - 1")
  case True
  with assms show ?thesis
    by (simp add: linspace_def Let_def)
next
  case False
  with assms show ?thesis
    by (simp add: linspace_def Let_def)
qed

lemma linspace_const: "i < num \<Longrightarrow> linspace a a num ! i = a"
  by (cases "num - 1 > 0") (auto simp: linspace_def Let_def nth_list_update)

lemma sample_2d:
  "shape msk = [h, w] \<Longrightarrow>
   sample msk [cy, cx] =
     (if outside h cy \<or> outside w cx then 0 else item msk [nearest cy, nearest cx])"
  by (simp add: sample_def)

lemma profile_2d:
  assumes "shape msk = [h, w]"
  shows "profile msk p0 p1 num =
     Inr (linspace (fst p0) (fst p1) num, linspace (snd p0) (snd p1) num,
          map (\<lambda>k. sample msk [linspace (snd p0) (snd p1) num ! k,
                                 linspace (fst p0) (fst p1) num ! k]) [0..<num])"
  using assms by (simp add: profile_def map_coordinates_def Let_def length_linspace)

lemma nonzero_Nil_iff: "nonzero vals = [] \<longleftrightarrow> (\<forall>i<length vals. vals ! i = 0)"
  by (auto simp: nonzero_def filter_empty_conv)

lemma nonzero_bound: "nonzero vals \<noteq> [] \<Longrightarrow> nonzero vals ! 0 < length vals"
proof -
  assume "nonzero vals \<noteq> []"
  then have "nonzero vals ! 0 \<in> set (nonzero vals)" by simp
  then show ?thesis by (simp add: nonzero_def)
qed

lemma nonzero_first:
  assumes "i < length vals" "vals ! i \<noteq> 0" "\<forall>j<i. vals ! j = 0"
  shows "nonzero vals \<noteq> [] \<and> nonzero vals ! 0 = i"
proof -
  have split: "[0..<length vals] = [0..<i] @ i # [Suc i..<length vals]"
  proof -
    have "[0..<i + (length vals - i)] = [0..<i] @ [i..<i + (length vals - i)]"
      by (rule upt_add_eq_append) simp
    moreover have "[i..<length vals] = i # [Suc i..<length vals]"
      using assms(1) by (rule upt_conv_Cons)
    ultimately show ?thesis using assms(1) by simp
  qed
  have "filter (\<lambda>k. vals ! k \<noteq> 0) [0..<i] = []"
    using assms(3) by (simp add: filter_empty_conv)
  then have "nonzero vals = i # filter (\<lambda>k. vals ! k \<noteq> 0) [Suc i..<length vals]"
    using assms(2) by (simp add: nonzero_def split)
  then show ?thesis by simp
qed

lemma contact_fallback:
  "nonzero vals = [] \<Longrightarrow> contact p0 off (xs, ys, vals) = (fst p0 + off, snd p0)"
  by (simp add: contact_def)

lemma contact_first:
  assumes "i < length vals" "vals ! i \<noteq> 0" "\<forall>j<i. vals ! j = 0"
  shows "contact p0 off (xs, ys, vals) = (xs ! i, ys ! i)"
  using nonzero_first [OF assms] by (simp add: contact_def Let_def)

lemma left_scan_2d:
  assumes "shape msk = [h, w]"
  shows "left_scan msk x y =
     Inr (linspace (real_of_int x) (real_of_int (x - sample_width w)) 40,
          linspace (real_of_int y) (real_of_int y) 40,
          map (\<lambda>k. sample msk [linspace (real_of_int y) (real_of_int y) 40 ! k,
                 linspace (real_of_int x) (real_of_int (x - sample_width w)) 40 ! k]) [0..<40])"
  using assms by (simp add: left_scan_def profile_2d [OF assms])

lemma right_scan_2d:
  assumes "shape msk = [h, w]"
  shows "right_scan msk x y =
     Inr (linspace (real_of_int x) (real_of_int (x + sample_width w)) 40,
          linspace (real_of_int y) (real_of_int y) 40,
          map (\<lambda>k. sample msk [linspace (real_of_int y) (real_of_int y) 40 ! k,
                 linspace (real_of_int x) (real_of_int (x + sample_width w)) 40 ! k]) [0..<40])"
  using assms by (simp add: right_scan_def profile_2d [OF assms])

lemma shape_2d: "length (shape msk) = 2 \<Longrightarrow> \<exists>h w. shape msk = [h, w]"
  by (cases "shape msk"; simp; rename_tac a as; case_tac as; simp)

lemma left_scan_facts:
  assumes "shape msk = [h, w]" "left_scan msk x y = Inr (xl, yl, l_val)"
  shows "length xl = 40 \<and> length yl = 40 \<and> length l_val = 40"
    and "i < 40 \<Longrightarrow> xl ! i = real_of_int x - real i * real_of_int (sample_width w) / 39"
    and "i < 40 \<Longrightarrow> yl ! i = real_of_int y"
    and "i < 40 \<Longrightarrow> l_val ! i = sample msk [yl ! i, xl ! i]"
  using assms(2) unfolding left_scan_2d [OF assms(1)]
  by (auto simp: length_linspace linspace_nth linspace_const field_simps)

lemma right_scan_facts:
  assumes "shape msk = [h, w]" "right_scan msk x y = Inr (xr, yr, r_val)"
  shows "length xr = 40 \<and> length yr = 40 \<and> length r_val = 40"
    and "i < 40 \<Longrightarrow> xr ! i = real_of_int x + real i * real_of_int (sample_width w) / 39"
    and "i < 40 \<Longrightarrow> yr ! i = real_of_int y"
    and "i < 40 \<Longrightarrow> r_val ! i = sample msk [yr ! i, xr ! i]"
  using assms(2) unfolding right_scan_2d [OF assms(1)]
  by (auto simp: length_linspace linspace_nth linspace_const field_simps)

lemma boundary_locator_2d:
  assumes "left_scan msk x y = Inr l" "right_scan msk x y = Inr r"
  shows "boundary_locator msk x y =
     Inr (contact (real_of_int x, real_of_int y) (- 100) l,
          contact (real_of_int x, real_of_int y) 30 r)"
  using assms by (simp add: boundary_locator_def Let_def)

lemma scans_total:
  assumes "length (shape msk) = 2"
  shows "\<exists>xl yl l_val xr yr r_val.
     left_scan msk x y = Inr (xl, yl, l_val) \<and> right_scan msk x y = Inr (xr, yr, r_val)"
proof -
  from shape_2d [OF assms] obtain h w where "shape msk = [h, w]" by blast
  then show ?thesis by (simp add: left_scan_2d right_scan_2d)
qed

lemma linspace_step:
  assumes "2 \<le> num" "Suc i < num"
  shows "linspace a b num ! Suc i - linspace a b num ! i = (b - a) / real (num - 1)"
proof -
  define k where "k = real (num - 1)"
  have hi: "linspace a b num ! Suc i = a + (real i + 1) * (b - a) / k"
    using assms by (simp add: linspace_nth k_def add.commute)
  have lo: "linspace a b num ! i = a + real i * (b - a) / k"
    using assms by (simp add: linspace_nth k_def)
  have "(real i + 1) * (b - a) / k = real i * (b - a) / k + (b - a) / k"
    by (simp add: distrib_right add_divide_distrib)
  then have "(a + (real i + 1) * (b - a) / k) - (a + real i * (b - a) / k) = (b - a) / k"
    by simp
  then show ?thesis
    by (simp only: hi lo k_def)
qed

text \<open>
  C4. For a 2-dimensional mask and \<open>N \<ge> 2\<close>, \<^verbatim>\<open>profile\<close> returns (it does not
  raise) three sequences of exactly \<open>N\<close> items; the first sample is the start point
  and the last the end point; sample \<open>i\<close> is the point \<open>p0 + t (p1 - p0)\<close> of the
  segment with \<open>t = i / (N - 1)\<close> in \<open>[0, 1]\<close>; consecutive samples differ by the
  constant step \<open>(p1 - p0) / (N - 1)\<close>; and each value is the mask sampled at the
  sample's coordinates. (Coordinates are exact reals here; the float64 results of
  \<^verbatim>\<open>np.linspace\<close> differ from them by rounding.)
\<close>

theorem profile_samples:
  assumes "length (shape msk) = 2" and "2 \<le> N"
  shows "\<exists>n m vals. profile msk p0 p1 N = Inr (n, m, vals)
     \<and> length n = N \<and> length m = N \<and> length vals = N
     \<and> (n ! 0, m ! 0) = p0 \<and> (n ! (N - 1), m ! (N - 1)) = p1
     \<and> (\<forall>i<N. \<exists>t. 0 \<le> t \<and> t \<le> 1 \<and> t = real i / real (N - 1)
            \<and> n ! i = fst p0 + t * (fst p1 - fst p0)
            \<and> m ! i = snd p0 + t * (snd p1 - snd p0))
     \<and> (\<forall>i. Suc i < N \<longrightarrow>
            n ! Suc i - n ! i = (fst p1 - fst p0) / real (N - 1)
          \<and> m ! Suc i - m ! i = (snd p1 - snd p0) / real (N - 1))
     \<and> (\<forall>i<N. vals ! i = sample msk [m ! i, n ! i])"
proof -
  from shape_2d [OF assms(1)] obtain h w where sh: "shape msk = [h, w]" by blast
  let ?n = "linspace (fst p0) (fst p1) N"
  let ?m = "linspace (snd p0) (snd p1) N"
  let ?vals = "map (\<lambda>k. sample msk [?m ! k, ?n ! k]) [0..<N]"
  have pos: "0 < real (N - 1)" using assms(2) by simp
  have p: "profile msk p0 p1 N = Inr (?n, ?m, ?vals)" by (rule profile_2d [OF sh])
  have len: "length ?n = N \<and> length ?m = N \<and> length ?vals = N"
    by (simp add: length_linspace)
  have first: "(?n ! 0, ?m ! 0) = p0"
    using assms(2) by (simp add: linspace_nth)
  have last: "(?n ! (N - 1), ?m ! (N - 1)) = p1"
    using assms(2) pos by (simp add: linspace_nth)
  have seg: "\<forall>i<N. \<exists>t. 0 \<le> t \<and> t \<le> 1 \<and> t = real i / real (N - 1)
            \<and> ?n ! i = fst p0 + t * (fst p1 - fst p0)
            \<and> ?m ! i = snd p0 + t * (snd p1 - snd p0)"
  proof (intro allI impI)
    fix i assume i: "i < N"
    then have "real i \<le> real (N - 1)" by simp
    then have "real i / real (N - 1) \<le> 1" using pos by (simp add: divide_le_eq)
    then show "\<exists>t. 0 \<le> t \<and> t \<le> 1 \<and> t = real i / real (N - 1)
            \<and> ?n ! i = fst p0 + t * (fst p1 - fst p0)
            \<and> ?m ! i = snd p0 + t * (snd p1 - snd p0)"
      using assms(2) i by (simp add: linspace_nth)
  qed
  have even_spaced: "\<forall>i. Suc i < N \<longrightarrow>
            ?n ! Suc i - ?n ! i = (fst p1 - fst p0) / real (N - 1)
          \<and> ?m ! Suc i - ?m ! i = (snd p1 - snd p0) / real (N - 1)"
  proof (intro allI impI)
    fix i assume i: "Suc i < N"
    with assms(2) show "?n ! Suc i - ?n ! i = (fst p1 - fst p0) / real (N - 1)
          \<and> ?m ! Suc i - ?m ! i = (snd p1 - snd p0) / real (N - 1)"
      by (simp only: linspace_step)
  qed
  have vals: "\<forall>i<N. ?vals ! i = sample msk [?m ! i, ?n ! i]" by simp
  from p len first last seg even_spaced vals show ?thesis by blast
qed

theorem profile_samples_witness:
  "length (shape zero_mask) = 2 \<and> (2::nat) \<le> 40
   \<and> (\<exists>n m vals. profile zero_mask (50, 60) (0, 60) 40 = Inr (n, m, vals)
        \<and> length n = 40 \<and> length m = 40 \<and> length vals = 40
        \<and> (n ! 0, m ! 0) = (50, 60) \<and> (n ! 39, m ! 39) = (0, 60)
        \<and> n ! 1 - n ! 0 = - 50 / 39 \<and> m ! 1 - m ! 0 = 0)"
proof -
  have two: "length (shape zero_mask) = 2" by (simp add: zero_mask_def)
  have n: "(2::nat) \<le> 40" by simp
  from profile_samples [OF two n, of "(50, 60)" "(0, 60)"] obtain n m vals
    where p: "profile zero_mask (50, 60) (0, 60) 40 = Inr (n, m, vals)"
      and len: "length n = 40" "length m = 40" "length vals = 40"
      and ends: "(n ! 0, m ! 0) = (50, 60)" "(n ! (40 - 1), m ! (40 - 1)) = (0, 60)"
      and step: "\<forall>i. Suc i < 40 \<longrightarrow>
            n ! Suc i - n ! i = (fst (0::real, 60::real) - fst (50::real, 60::real)) / real (40 - 1)
          \<and> m ! Suc i - m ! i = (snd (0::real, 60::real) - snd (50::real, 60::real)) / real (40 - 1)"
    by blast
  from step have "n ! Suc 0 - n ! 0 = - 50 / 39 \<and> m ! Suc 0 - m ! 0 = 0"
    by simp
  with p len ends two show ?thesis by simp
qed

section \<open>Boundary locator\<close>

text \<open>
  C3. For a 2-dimensional mask and every reference point \<open>(x, y)\<close> with integer
  coordinates of magnitude at most \<open>2^52\<close> (where the int64 additions of the source
  are exact), both scans and the locator return (no error); when the left scan has no non-zero sample the left contact
  is exactly \<open>(x - 100, y)\<close>, and when the right scan has none the right contact is
  exactly \<open>(x + 30, y)\<close>. Each side is scanned once: the contact is a function of
  that side's one profile.
\<close>

theorem boundary_fallback:
  assumes "length (shape msk) = 2" and "\<bar>x\<bar> \<le> 2 ^ 52" and "\<bar>y\<bar> \<le> 2 ^ 52"
  shows "\<exists>xl yl l_val xr yr r_val cl cr.
     left_scan msk x y = Inr (xl, yl, l_val) \<and> right_scan msk x y = Inr (xr, yr, r_val)
     \<and> boundary_locator msk x y = Inr (cl, cr)
     \<and> ((\<forall>v\<in>set l_val. v = 0) \<longrightarrow> cl = (real_of_int x - 100, real_of_int y))
     \<and> ((\<forall>v\<in>set r_val. v = 0) \<longrightarrow> cr = (real_of_int x + 30, real_of_int y))"
proof -
  from scans_total [OF assms(1)] obtain xl yl l_val xr yr r_val
    where l: "left_scan msk x y = Inr (xl, yl, l_val)"
      and r: "right_scan msk x y = Inr (xr, yr, r_val)" by blast
  let ?p0 = "(real_of_int x, real_of_int y)"
  have b: "boundary_locator msk x y =
      Inr (contact ?p0 (- 100) (xl, yl, l_val), contact ?p0 30 (xr, yr, r_val))"
    by (rule boundary_locator_2d [OF l r])
  have cl: "(\<forall>v\<in>set l_val. v = 0) \<longrightarrow>
      contact ?p0 (- 100) (xl, yl, l_val) = (real_of_int x - 100, real_of_int y)"
    by (simp add: contact_fallback nonzero_Nil_iff)
  have cr: "(\<forall>v\<in>set r_val. v = 0) \<longrightarrow>
      contact ?p0 30 (xr, yr, r_val) = (real_of_int x + 30, real_of_int y)"
    by (simp add: contact_fallback nonzero_Nil_iff)
  from l r b cl cr show ?thesis by blast
qed

lemma sample_zero_mask: "sample zero_mask cs = 0"
  by (simp add: sample_def zero_mask_def)

theorem boundary_fallback_witness:
  "length (shape zero_mask) = 2 \<and> \<bar>50::int\<bar> \<le> 2 ^ 52 \<and> \<bar>60::int\<bar> \<le> 2 ^ 52
   \<and> boundary_locator zero_mask 50 60 = Inr ((- 50, 60), (80, 60))"
proof -
  have two: "length (shape zero_mask) = 2" by (simp add: zero_mask_def)
  have sh: "shape zero_mask = [100, 100]" by (simp add: zero_mask_def)
  have bx: "\<bar>50::int\<bar> \<le> 2 ^ 52" and bnd_y: "\<bar>60::int\<bar> \<le> 2 ^ 52" by simp_all
  from boundary_fallback [OF two bx bnd_y] obtain xl yl l_val xr yr r_val cl cr
    where l: "left_scan zero_mask 50 60 = Inr (xl, yl, l_val)"
      and r: "right_scan zero_mask 50 60 = Inr (xr, yr, r_val)"
      and b: "boundary_locator zero_mask 50 60 = Inr (cl, cr)"
      and cl: "(\<forall>v\<in>set l_val. v = 0) \<longrightarrow> cl = (real_of_int 50 - 100, real_of_int 60)"
      and cr: "(\<forall>v\<in>set r_val. v = 0) \<longrightarrow> cr = (real_of_int 50 + 30, real_of_int 60)"
    by blast
  have "\<forall>v\<in>set l_val. v = 0"
    using left_scan_facts(1,4) [OF sh l] by (auto simp: in_set_conv_nth sample_zero_mask)
  moreover have "\<forall>v\<in>set r_val. v = 0"
    using right_scan_facts(1,4) [OF sh r] by (auto simp: in_set_conv_nth sample_zero_mask)
  ultimately have "cl = (- 50, 60)" "cr = (80, 60)" using cl cr by simp_all
  with b two bx bnd_y show ?thesis by simp
qed

section \<open>The end-to-end example: sampled columns of a 100 pixel wide frame\<close>

lemma nearest_eq_pos:
  "0 < k \<Longrightarrow> nearest c = k \<longleftrightarrow> real k \<le> c + 1 / 2 \<and> c + 1 / 2 < real k + 1"
  unfolding nearest_def by (auto simp: nat_eq_iff floor_eq_iff)

lemma sample_width_100: "sample_width 100 = 50"
  by (simp add: sample_width_def py_int_def)

text \<open>A natural number multiplied by 100 is never strictly between 1500 and 1600.\<close>

lemma no_index_between:
  assumes "lo < real i * 100" "real i * 100 < hi" "100 * real k \<le> lo" "hi \<le> 100 * real (Suc k)"
  shows False
proof -
  have "real k < real i" using assms(1,3) by linarith
  then have above: "Suc k \<le> i" by simp
  from assms(2,4) have "real i * 100 < 100 * real (Suc k)" by (rule less_le_trans)
  then have "real i < real (Suc k)" by simp
  then have "i < Suc k" by (simp only: of_nat_less_iff)
  with above show False by simp
qed

lemma left_not_30: "nearest (50 - real i * 50 / 39) \<noteq> 30"
proof
  assume "nearest (50 - real i * 50 / 39) = 30"
  then have "30 \<le> 50 - real i * 50 / 39 + 1 / 2 \<and> 50 - real i * 50 / 39 + 1 / 2 < 30 + 1"
    by (simp add: nearest_eq_pos)
  then have "1500 < real i * 100" "real i * 100 < 1600"
    by (simp_all add: field_simps)
  then show False by (rule no_index_between [where k = 15]) simp_all
qed

lemma left_not_70: "nearest (50 - real i * 50 / 39) \<noteq> 70"
proof
  assume "nearest (50 - real i * 50 / 39) = 70"
  then have "70 \<le> 50 - real i * 50 / 39 + 1 / 2"
    by (simp add: nearest_eq_pos)
  moreover have "0 \<le> real i * 50 / 39" by simp
  ultimately show False by linarith
qed

lemma right_not_30: "nearest (50 + real i * 50 / 39) \<noteq> 30"
proof
  assume "nearest (50 + real i * 50 / 39) = 30"
  then have "50 + real i * 50 / 39 + 1 / 2 < 30 + 1"
    by (simp add: nearest_eq_pos)
  moreover have "0 \<le> real i * 50 / 39" by simp
  ultimately show False by linarith
qed

lemma right_not_70: "nearest (50 + real i * 50 / 39) \<noteq> 70"
proof
  assume "nearest (50 + real i * 50 / 39) = 70"
  then have "70 \<le> 50 + real i * 50 / 39 + 1 / 2 \<and> 50 + real i * 50 / 39 + 1 / 2 < 70 + 1"
    by (simp add: nearest_eq_pos)
  then have "1500 < real i * 100" "real i * 100 < 1600"
    by (simp_all add: field_simps)
  then show False by (rule no_index_between [where k = 15]) simp_all
qed

lemma nearest_60: "nearest 60 = 60"
  by (simp add: nearest_def)

lemma example_left_zero: "sample example_mask [60, 50 - real i * 50 / 39] = 0"
  using left_not_30 [of i] left_not_70 [of i]
  by (simp add: sample_def example_mask_def nearest_60)

lemma example_right_zero: "sample example_mask [60, 50 + real i * 50 / 39] = 0"
  using right_not_30 [of i] right_not_70 [of i]
  by (simp add: sample_def example_mask_def nearest_60)

lemma example_shape: "shape example_mask = [100, 100]"
  by (simp add: example_mask_def)

lemma example_contacts:
  "boundary_locator example_mask 50 60 = Inr ((- 50, 60), (80, 60))"
proof -
  from scans_total [of example_mask 50 60] obtain xl yl l_val xr yr r_val
    where l: "left_scan example_mask 50 60 = Inr (xl, yl, l_val)"
      and r: "right_scan example_mask 50 60 = Inr (xr, yr, r_val)"
    by (auto simp: example_shape)
  note lf = left_scan_facts [OF example_shape l]
  note rf = right_scan_facts [OF example_shape r]
  have "\<forall>i<length l_val. l_val ! i = 0"
    using lf(1) by (simp add: lf(2,3,4) sample_width_100 example_left_zero)
  then have nl: "nonzero l_val = []" by (simp only: nonzero_Nil_iff)
  have "\<forall>i<length r_val. r_val ! i = 0"
    using rf(1) by (simp add: rf(2,3,4) sample_width_100 example_right_zero)
  then have nr: "nonzero r_val = []" by (simp only: nonzero_Nil_iff)
  show ?thesis
    unfolding boundary_locator_2d [OF l r]
    by (simp add: contact_fallback nl nr)
qed

lemma example_center: "find_center example_mask 50 60 = Inr (15, 60)"
proof -
  have "float64_round (- 50 + 80) = 30" using float64_round_of_int [of 30] by simp
  moreover have "float64_round (60 + 60) = 120" using float64_round_of_int [of 120] by simp
  ultimately show ?thesis
    by (simp add: find_center_def example_contacts road_center_estimator_def py_int_def)
qed

lemma example_heading:
  "model_to_heading (PyInt 15, PyInt 60) (PyInt 50, PyInt 100) = arctan (7 / 8) * 180 / pi"
  by (simp add: model_to_heading_int arctan2_up arctan_minus)

lemma example_detect:
  "detect example_mask = Inr [''heading'' \<mapsto> arctan (7 / 8) * 180 / pi]"
  by (simp add: detect_def example_shape py_int_def example_center example_heading)

lemma arctan_7_8_bounds: "pi / 6 < arctan (7 / 8) \<and> arctan (7 / 8) < pi / 4"
proof -
  have a: "arctan (1 / sqrt 3) = pi / 6"
    by (rule arctan_unique) (simp_all add: tan_30)
  have "(8 / 7 :: real)\<^sup>2 < 3" by (simp add: power2_eq_square)
  then have "8 / 7 < sqrt 3" by (rule real_less_rsqrt)
  then have "1 / sqrt 3 < 7 / 8" by (simp add: field_simps)
  then have "arctan (1 / sqrt 3) < arctan (7 / 8)" by (simp only: arctan_less_iff)
  moreover have "arctan (7 / 8) < arctan 1" by (simp add: arctan_less_iff)
  ultimately show ?thesis by (simp only: a arctan_one)
qed

lemma example_heading_bounds:
  "30 < arctan (7 / 8) * 180 / pi \<and> arctan (7 / 8) * 180 / pi < 45"
  using arctan_7_8_bounds by (simp add: field_simps)

text \<open>
  C2 (as the code has it). On the 100 x 100 mask whose only non-zero pixels are at
  \<open>(30, 60)\<close> and \<open>(70, 60)\<close>, \<^verbatim>\<open>detect\<close> uses \<open>x0 = 50\<close> and \<open>y0 = 60\<close>; the
  40 samples of each side are \<open>50/39\<close> pixels apart and fall on columns 31 and 29 on
  the left and 69 and 71 on the right, never on column 30 or 70. Both scans therefore
  find nothing: the contacts are the fallback points \<open>(-50, 60)\<close> and \<open>(80, 60)\<close>,
  the road center is \<open>(15, 60)\<close>, and the heading is \<open>arctan(35/40)\<close> in degrees,
  between 30 and 45 (about 41.2).
\<close>

theorem detect_example:
  "py_int (real 100 / 2) = 50 \<and> py_int (real 100 * (6 / 10)) = 60
   \<and> boundary_locator example_mask 50 60 = Inr ((- 50, 60), (80, 60))
   \<and> find_center example_mask 50 60 = Inr (15, 60)
   \<and> detect example_mask = Inr [''heading'' \<mapsto> arctan (7 / 8) * 180 / pi]
   \<and> 30 < arctan (7 / 8) * 180 / pi \<and> arctan (7 / 8) * 180 / pi < 45"
  using example_contacts example_center example_detect example_heading_bounds
  by (simp add: py_int_def)

text \<open>
  C2 as stated fails: the contacts are not \<open>(30, 60)\<close> and \<open>(70, 60)\<close>, the road
  center is not \<open>(50, 60)\<close>, and the heading is above 30 degrees, not about 0.
\<close>

theorem detect_example_not_as_specified:
  "boundary_locator example_mask 50 60 \<noteq> Inr ((30, 60), (70, 60))
   \<and> find_center example_mask 50 60 \<noteq> Inr (50, 60)
   \<and> (\<exists>hd. detect example_mask = Inr [''heading'' \<mapsto> hd] \<and> 30 < hd)"
proof -
  have "\<exists>hd. detect example_mask = Inr [''heading'' \<mapsto> hd] \<and> 30 < hd"
    using example_detect example_heading_bounds by blast
  then show ?thesis
    by (simp add: example_contacts example_center)
qed

section \<open>First non-zero sample\<close>

lemma left_31_iff: "nearest (50 - real i * 50 / 39) = 31 \<longleftrightarrow> i = 15"
proof
  assume "nearest (50 - real i * 50 / 39) = 31"
  then have "31 \<le> 50 - real i * 50 / 39 + 1 / 2 \<and> 50 - real i * 50 / 39 + 1 / 2 < 31 + 1"
    by (simp add: nearest_eq_pos)
  then have "real 14 * 100 < real i * 100" "real i * 100 < real 16 * 100"
    by (simp_all add: field_simps)
  then have "real 14 < real i" "real i < real 16" by simp_all
  then have "14 < i" "i < 16" by (simp_all only: of_nat_less_iff)
  then show "i = 15" by simp
next
  assume "i = 15"
  then show "nearest (50 - real i * 50 / 39) = 31"
    by (simp add: nearest_eq_pos)
qed

lemma right_not_31: "nearest (50 + real i * 50 / 39) \<noteq> 31"
proof
  assume "nearest (50 + real i * 50 / 39) = 31"
  then have "50 + real i * 50 / 39 + 1 / 2 < 31 + 1"
    by (simp add: nearest_eq_pos)
  moreover have "0 \<le> real i * 50 / 39" by simp
  ultimately show False by linarith
qed

lemma one_pixel_shape: "shape one_pixel_mask = [100, 100]"
  by (simp add: one_pixel_mask_def)

lemma one_pixel_left:
  "i < 40 \<Longrightarrow> sample one_pixel_mask [60, 50 - real i * 50 / 39] = (if i = 15 then 255 else 0)"
proof -
  assume "i < 40"
  then have "real i \<le> 39" by simp
  then have "\<not> outside 100 (50 - real i * 50 / 39)"
    by (simp add: outside_def field_simps)
  moreover have "\<not> outside 100 60" by (simp add: outside_def)
  ultimately show ?thesis
    by (simp add: sample_def one_pixel_mask_def nearest_60 left_31_iff)
qed

lemma one_pixel_right: "sample one_pixel_mask [60, 50 + real i * 50 / 39] = 0"
  using right_not_31 [of i]
  by (simp add: sample_def one_pixel_mask_def nearest_60)

text \<open>
  C6 (as the code has it). When sample \<open>i\<close> of the left scan is its first non-zero
  sample (in particular when it is its only one), the left contact is the coordinate of
  that sample, \<open>(x - i * half_width / 39, y)\<close>: a point of the scan line, in general
  between pixel centers, whose nearest grid cell is the non-zero pixel that was read.
\<close>

theorem left_contact_is_first_nonzero_sample:
  assumes "shape msk = [h, w]"
    and "left_scan msk x y = Inr (xl, yl, l_val)"
    and "i < length l_val" and "l_val ! i \<noteq> 0" and "\<forall>j<i. l_val ! j = 0"
  shows "(\<exists>contact_r. boundary_locator msk x y = Inr ((xl ! i, yl ! i), contact_r))
     \<and> xl ! i = real_of_int x - real i * real_of_int (sample_width w) / 39
     \<and> yl ! i = real_of_int y
     \<and> item msk [nearest (yl ! i), nearest (xl ! i)] = l_val ! i"
proof -
  note lf = left_scan_facts [OF assms(1,2)]
  have i: "i < 40" using assms(3) lf(1) by simp
  from scans_total [of msk x y] assms(1) obtain xr yr r_val
    where r: "right_scan msk x y = Inr (xr, yr, r_val)" by auto
  have "boundary_locator msk x y =
      Inr ((xl ! i, yl ! i), contact (real_of_int x, real_of_int y) 30 (xr, yr, r_val))"
    unfolding boundary_locator_2d [OF assms(2) r]
    by (simp add: contact_first [OF assms(3,4,5)])
  moreover have "sample msk [yl ! i, xl ! i] \<noteq> 0"
    using assms(4) lf(4) [OF i] by simp
  then have "item msk [nearest (yl ! i), nearest (xl ! i)] = l_val ! i"
    unfolding lf(4) [OF i] sample_2d [OF assms(1)] by (simp split: if_splits)
  ultimately show ?thesis using lf(2,3) [OF i] by blast
qed

lemma one_pixel_left_scan:
  assumes "left_scan one_pixel_mask 50 60 = Inr (xl, yl, l_val)"
  shows "length l_val = 40" and "xl ! 15 = 1200 / 39" and "yl ! 15 = 60"
    and "\<forall>j<40. l_val ! j = (if j = 15 then 255 else 0)"
proof -
  note lf = left_scan_facts [OF one_pixel_shape assms]
  show "length l_val = 40" using lf(1) by simp
  show "xl ! 15 = 1200 / 39" by (simp add: lf(2) sample_width_100)
  show "yl ! 15 = 60" by (simp add: lf(3))
  show "\<forall>j<40. l_val ! j = (if j = 15 then 255 else 0)"
    by (simp add: lf(2,3,4) sample_width_100 one_pixel_left)
qed

lemma one_pixel_right_scan:
  assumes "right_scan one_pixel_mask 50 60 = Inr (xr, yr, r_val)"
  shows "nonzero r_val = []"
proof -
  note rf = right_scan_facts [OF one_pixel_shape assms]
  have "\<forall>i<length r_val. r_val ! i = 0"
    using rf(1) by (simp add: rf(2,3,4) sample_width_100 one_pixel_right)
  then show ?thesis by (simp only: nonzero_Nil_iff)
qed

theorem left_contact_is_first_nonzero_sample_witness:
  "shape one_pixel_mask = [100, 100]
   \<and> (\<exists>contact_r. boundary_locator one_pixel_mask 50 60 = Inr ((1200 / 39, 60), contact_r))
   \<and> item one_pixel_mask [nearest 60, nearest (1200 / 39)] = 255"
proof -
  from scans_total [of one_pixel_mask 50 60] obtain xl yl l_val
    where l: "left_scan one_pixel_mask 50 60 = Inr (xl, yl, l_val)"
    by (auto simp: one_pixel_shape)
  note s = one_pixel_left_scan [OF l]
  have a: "15 < length l_val" "l_val ! 15 \<noteq> 0" "\<forall>j<15. l_val ! j = 0"
    using s(1,4) by simp_all
  from left_contact_is_first_nonzero_sample [OF one_pixel_shape l a] s
  show ?thesis by (simp add: one_pixel_shape)
qed

text \<open>
  C6 as stated fails: on the 100 x 100 mask whose only non-zero pixel is \<open>(31, 60)\<close>,
  the left scan from \<open>(50, 60)\<close> has exactly one non-zero sample (index 15, whose
  nearest pixel is \<open>(31, 60)\<close>), and the left contact is \<open>(1200/39, 60)\<close>, about
  \<open>(30.77, 60)\<close>, not the pixel's coordinate \<open>(31, 60)\<close>.
\<close>

theorem left_contact_is_not_the_pixel:
  "(\<exists>xl yl l_val. left_scan one_pixel_mask 50 60 = Inr (xl, yl, l_val)
       \<and> l_val ! 15 \<noteq> 0 \<and> (\<forall>j<40. j \<noteq> 15 \<longrightarrow> l_val ! j = 0)
       \<and> nearest (xl ! 15) = 31 \<and> nearest (yl ! 15) = 60)
   \<and> item one_pixel_mask [60, 31] \<noteq> 0
   \<and> boundary_locator one_pixel_mask 50 60 = Inr ((1200 / 39, 60), (80, 60))
   \<and> (1200 / 39, 60) \<noteq> (31 :: real, 60 :: real)"
proof -
  from scans_total [of one_pixel_mask 50 60] obtain xl yl l_val xr yr r_val
    where l: "left_scan one_pixel_mask 50 60 = Inr (xl, yl, l_val)"
      and r: "right_scan one_pixel_mask 50 60 = Inr (xr, yr, r_val)"
    by (auto simp: one_pixel_shape)
  note s = one_pixel_left_scan [OF l]
  have near: "nearest (1200 / 39) = 31" by (simp add: nearest_eq_pos)
  have scan: "\<exists>xl yl l_val. left_scan one_pixel_mask 50 60 = Inr (xl, yl, l_val)
       \<and> l_val ! 15 \<noteq> 0 \<and> (\<forall>j<40. j \<noteq> 15 \<longrightarrow> l_val ! j = 0)
       \<and> nearest (xl ! 15) = 31 \<and> nearest (yl ! 15) = 60"
  proof (intro exI conjI)
    show "left_scan one_pixel_mask 50 60 = Inr (xl, yl, l_val)" by (rule l)
    show "l_val ! 15 \<noteq> 0" using s(4) by simp
    show "\<forall>j<40. j \<noteq> 15 \<longrightarrow> l_val ! j = 0" using s(4) by simp
    show "nearest (xl ! 15) = 31" by (simp only: s(2) near)
    show "nearest (yl ! 15) = 60" by (simp only: s(3) nearest_60)
  qed
  have a: "15 < length l_val" "l_val ! 15 \<noteq> 0" "\<forall>j<15. l_val ! j = 0"
    using s(1,4) by simp_all
  have b: "boundary_locator one_pixel_mask 50 60 = Inr ((1200 / 39, 60), (80, 60))"
    unfolding boundary_locator_2d [OF l r]
    by (simp add: contact_first [OF a] contact_fallback [OF one_pixel_right_scan [OF r]] s)
  have "item one_pixel_mask [60, 31] \<noteq> 0" by (simp add: one_pixel_mask_def)
  with scan b show ?thesis by simp
qed

section \<open>Heading range and scan bounds\<close>

lemma sample_width_div: "sample_width w = int (w div 2)"
proof -
  have "\<lfloor>real w / real 2\<rfloor> = int (w div 2)" by (rule floor_divide_of_nat_eq)
  then show ?thesis by (simp add: sample_width_def py_int_def)
qed

lemma contact_snd:
  assumes "length ys = length vals" "\<forall>i<length ys. ys ! i = y"
  shows "snd (contact (x, y) off (xs, ys, vals)) = y"
proof (cases "nonzero vals = []")
  case True
  then show ?thesis by (simp add: contact_fallback)
next
  case False
  from nonzero_bound [OF False] assms show ?thesis
    using False by (simp add: contact_def Let_def)
qed

lemma find_center_row:
  assumes "shape msk = [h, w]"
  shows "\<exists>cx. find_center msk x y = Inr (cx, py_int (float64_round (real_of_int y)))"
proof -
  from scans_total [of msk x y] assms obtain xl yl l_val xr yr r_val
    where l: "left_scan msk x y = Inr (xl, yl, l_val)"
      and r: "right_scan msk x y = Inr (xr, yr, r_val)" by auto
  note lf = left_scan_facts [OF assms l]
  note rf = right_scan_facts [OF assms r]
  let ?cl = "contact (real_of_int x, real_of_int y) (- 100) (xl, yl, l_val)"
  let ?cr = "contact (real_of_int x, real_of_int y) 30 (xr, yr, r_val)"
  have sl: "snd ?cl = real_of_int y"
    by (rule contact_snd) (simp_all add: lf)
  have sr: "snd ?cr = real_of_int y"
    by (rule contact_snd) (simp_all add: rf)
  have "find_center msk x y = Inr (road_center_estimator ?cl ?cr)"
    by (simp add: find_center_def boundary_locator_2d [OF l r])
  moreover have "snd (road_center_estimator ?cl ?cr) = py_int (float64_round (real_of_int y))"
    by (simp only: road_center_estimator_def Let_def snd_conv sl sr float64_round_same_row)
  ultimately show ?thesis by (metis prod.collapse)
qed

lemma sampled_row_above_car:
  assumes "0 < h"
  shows "py_int (real h * (6 / 10)) < int h"
proof -
  have "real_of_int \<lfloor>real h * (6 / 10)\<rfloor> \<le> real h * (6 / 10)" by (rule of_int_floor_le)
  also have "\<dots> < real h" using assms by simp
  finally have "\<lfloor>real h * (6 / 10)\<rfloor> < int h" by simp
  then show ?thesis by (simp add: py_int_def)
qed

text \<open>
  The row of the road center: the sampled row after the float64 sum and \<^verbatim>\<open>int\<close>. It
  is the sampled row itself up to \<open>2^53\<close>, and below the car center's row always.
\<close>

lemma py_int_less:
  assumes "t < real h" and "0 < h"
  shows "py_int t < int h"
proof (cases "0 \<le> t")
  case True
  have "real_of_int \<lfloor>t\<rfloor> \<le> t" by (rule of_int_floor_le)
  with assms(1) have "real_of_int \<lfloor>t\<rfloor> < real h" by linarith
  then have "\<lfloor>t\<rfloor> < int h" by simp
  with True show ?thesis by (simp add: py_int_def)
next
  case False
  then have "\<lceil>t\<rceil> \<le> 0" by (simp add: ceiling_le_iff)
  with assms(2) have "\<lceil>t\<rceil> < int h" by linarith
  with False show ?thesis by (simp add: py_int_def)
qed

lemma road_center_row_above_car:
  assumes "0 < h"
  shows "py_int (float64_round (real_of_int (py_int (real h * (6 / 10))))) < int h"
proof -
  define y0 where "y0 = real_of_int (py_int (real h * (6 / 10)))"
  have nonneg: "0 \<le> y0" by (simp add: y0_def py_int_def)
  have "real_of_int \<lfloor>real h * (6 / 10)\<rfloor> \<le> real h * (6 / 10)" by (rule of_int_floor_le)
  then have le: "y0 \<le> real h * (6 / 10)" by (simp add: y0_def py_int_def)
  have "\<bar>float64_round y0 - y0\<bar> \<le> \<bar>y0\<bar> / 2 ^ 53" by (rule float64_round_error)
  moreover have "\<bar>y0\<bar> / 2 ^ 53 \<le> y0 / 2"
    using nonneg by (simp add: frac_le)
  ultimately have "float64_round y0 \<le> y0 + y0 / 2" by linarith
  with le have "float64_round y0 \<le> real h * (9 / 10)" by linarith
  moreover have "real h * (9 / 10) < real h" using assms by simp
  ultimately have "float64_round y0 < real h" by linarith
  then show ?thesis unfolding y0_def using assms by (rule py_int_less)
qed

lemma degrees_range:
  assumes "- (pi / 2) < a" "a < pi / 2"
  shows "- 90 < - a * 180 / pi \<and> - a * 180 / pi < 90"
proof -
  have "- 90 * pi < - a * 180" "- a * 180 < 90 * pi" using assms by simp_all
  then show ?thesis
    by (simp only: pos_less_divide_eq [OF pi_gt_zero] pos_divide_less_eq [OF pi_gt_zero])
qed

lemma heading_range_above:
  assumes "my < cy"
  shows "- 90 < model_to_heading (PyInt mx, PyInt my) (PyInt cx, PyInt cy)
     \<and> model_to_heading (PyInt mx, PyInt my) (PyInt cx, PyInt cy) < 90"
proof -
  let ?a = "arctan ((real_of_int mx - real_of_int cx) / (- (real_of_int my - real_of_int cy)))"
  have eq: "model_to_heading (PyInt mx, PyInt my) (PyInt cx, PyInt cy) = - ?a * 180 / pi"
    using assms by (simp add: model_to_heading_int arctan2_up)
  have "- 90 < - ?a * 180 / pi \<and> - ?a * 180 / pi < 90"
    by (rule degrees_range) (rule arctan_lbound, rule arctan_ubound)
  then show ?thesis by (simp only: eq)
qed

text \<open>
  C9. For a 2-dimensional mask with positive height and width, \<^verbatim>\<open>detect\<close> returns a
  dictionary whose heading lies strictly between \<open>-90\<close> and \<open>90\<close> degrees: the
  sampled row \<open>y0 = int(0.6 H)\<close> is less than the car center's row \<open>H\<close>, the road
  center is on row \<open>y0\<close> (as the float64 sum and \<^verbatim>\<open>int\<close> return it, which is
  below \<open>H\<close> as well), so \<open>dy < 0\<close> in \<^verbatim>\<open>model_to_heading\<close>.
\<close>

theorem detect_heading_range:
  assumes "shape msk = [h, w]" and "0 < h" and "0 < w"
  shows "py_int (real h * (6 / 10)) < int h
     \<and> (\<exists>heading. detect msk = Inr [''heading'' \<mapsto> heading]
           \<and> - 90 < heading \<and> heading < 90)"
proof -
  let ?x0 = "py_int (real w / 2)"
  let ?y0 = "py_int (real h * (6 / 10))"
  let ?y1 = "py_int (float64_round (real_of_int ?y0))"
  from find_center_row [OF assms(1), of ?x0 ?y0] obtain cx
    where c: "find_center msk ?x0 ?y0 = Inr (cx, ?y1)" by blast
  have d: "detect msk = Inr [''heading'' \<mapsto>
      model_to_heading (PyInt cx, PyInt ?y1) (PyInt ?x0, PyInt (int h))]"
    unfolding detect_def assms(1) Let_def
    by (simp only: list.case c sum.case map_prod_simp)
  from heading_range_above [OF road_center_row_above_car [OF assms(2)]] d
    sampled_row_above_car [OF assms(2)]
  show ?thesis by blast
qed

theorem detect_heading_range_witness:
  "shape example_mask = [100, 100] \<and> (0::nat) < 100
   \<and> (\<exists>heading. detect example_mask = Inr [''heading'' \<mapsto> heading]
         \<and> - 90 < heading \<and> heading < 90)"
  using detect_heading_range [OF example_shape] example_shape by simp

text \<open>
  C10. For a 2-dimensional mask of width \<open>W\<close> and every reference point, the two
  scans of \<^verbatim>\<open>find_center\<close> end at \<open>x - int(W/2)\<close> and \<open>x + int(W/2)\<close>, where
  \<open>int(W/2) = W div 2\<close>; both return 40 values without raising, and every sample whose
  coordinates are outside the mask has the value 0. With \<^verbatim>\<open>detect\<close>'s
  \<open>x = int(W/2)\<close> and an even \<open>W > 0\<close> the last sample of the right scan is at
  \<open>x = W\<close>, outside the mask, and its value is 0.
\<close>

theorem scans_never_raise:
  assumes "shape msk = [h, w]"
  shows "\<exists>xl yl l_val xr yr r_val.
       left_scan msk x y = Inr (xl, yl, l_val) \<and> right_scan msk x y = Inr (xr, yr, r_val)
     \<and> length l_val = 40 \<and> length r_val = 40
     \<and> sample_width w = int (w div 2)
     \<and> xl ! 39 = real_of_int (x - sample_width w)
     \<and> xr ! 39 = real_of_int (x + sample_width w)
     \<and> (\<forall>i<40. outside w (xl ! i) \<or> outside h (yl ! i) \<longrightarrow> l_val ! i = 0)
     \<and> (\<forall>i<40. outside w (xr ! i) \<or> outside h (yr ! i) \<longrightarrow> r_val ! i = 0)
     \<and> (even w \<and> 0 < w \<and> x = py_int (real w / 2) \<longrightarrow>
           xr ! 39 = real w \<and> outside w (xr ! 39) \<and> r_val ! 39 = 0)"
proof -
  from scans_total [of msk x y] assms obtain xl yl l_val xr yr r_val
    where l: "left_scan msk x y = Inr (xl, yl, l_val)"
      and r: "right_scan msk x y = Inr (xr, yr, r_val)" by auto
  note lf = left_scan_facts [OF assms l]
  note rf = right_scan_facts [OF assms r]
  have len: "length l_val = 40 \<and> length r_val = 40" using lf(1) rf(1) by simp
  have el: "xl ! 39 = real_of_int (x - sample_width w)" by (simp add: lf(2))
  have er: "xr ! 39 = real_of_int (x + sample_width w)" by (simp add: rf(2))
  have ol: "\<forall>i<40. outside w (xl ! i) \<or> outside h (yl ! i) \<longrightarrow> l_val ! i = 0"
    by (auto simp: lf(4) sample_2d [OF assms])
  have or: "\<forall>i<40. outside w (xr ! i) \<or> outside h (yr ! i) \<longrightarrow> r_val ! i = 0"
    by (auto simp: rf(4) sample_2d [OF assms])
  have ev: "even w \<and> 0 < w \<and> x = py_int (real w / 2) \<longrightarrow>
           xr ! 39 = real w \<and> outside w (xr ! 39) \<and> r_val ! 39 = 0"
  proof
    assume a: "even w \<and> 0 < w \<and> x = py_int (real w / 2)"
    then have "x = int (w div 2)" using sample_width_div [of w] by (simp add: sample_width_def)
    moreover from a obtain k where "w = 2 * k" by (auto elim: evenE)
    ultimately have "x + sample_width w = int w" by (simp add: sample_width_div)
    then have e: "xr ! 39 = real w" by (simp add: er)
    then have o: "outside w (xr ! 39)" by (simp add: outside_def)
    with or have "r_val ! 39 = 0" by simp
    with e o show "xr ! 39 = real w \<and> outside w (xr ! 39) \<and> r_val ! 39 = 0" by simp
  qed
  from l r len el er ol or ev sample_width_div [of w] show ?thesis by blast
qed

theorem scans_never_raise_witness:
  "shape example_mask = [100, 100] \<and> even (100::nat) \<and> (0::nat) < 100
   \<and> (50::int) = py_int (real 100 / 2)
   \<and> (\<exists>xl yl l_val xr yr r_val.
       left_scan example_mask 50 60 = Inr (xl, yl, l_val)
     \<and> right_scan example_mask 50 60 = Inr (xr, yr, r_val)
     \<and> xl ! 39 = 0 \<and> xr ! 39 = 100 \<and> outside 100 (xr ! 39) \<and> r_val ! 39 = 0)"
proof -
  have h: "even (100::nat) \<and> (0::nat) < 100 \<and> (50::int) = py_int (real 100 / 2)"
    by (simp add: py_int_def)
  from scans_never_raise [OF example_shape, of 50 60] obtain xl yl l_val xr yr r_val
    where "left_scan example_mask 50 60 = Inr (xl, yl, l_val)"
      and "right_scan example_mask 50 60 = Inr (xr, yr, r_val)"
      and "xl ! 39 = real_of_int (50 - sample_width 100)"
      and "even (100::nat) \<and> (0::nat) < 100 \<and> (50::int) = py_int (real 100 / 2) \<longrightarrow>
           xr ! 39 = real 100 \<and> outside 100 (xr ! 39) \<and> r_val ! 39 = 0"
    by blast
  with h show ?thesis by (simp add: example_shape sample_width_100 outside_def)
qed

end
